theory Spec2Isabelle
  imports Main "HOL-Library.Word"
begin

unbundle bit_operations_syntax

section \<open>The key and message layer of crypt.go\<close>

text \<open>
  The package wraps three collaborators that live outside the repository: NaCl's
  \<^verbatim>\<open>box\<close> (\<^verbatim>\<open>GenerateKey\<close>, \<^verbatim>\<open>Seal\<close>, \<^verbatim>\<open>Open\<close>), the \<^verbatim>\<open>base58\<close> text codec
  (\<^verbatim>\<open>Encode\<close>, \<^verbatim>\<open>Decode\<close>) and the random source \<^verbatim>\<open>rand.Reader\<close> that
  \<^verbatim>\<open>generateNonce\<close> reads. Every function below takes the collaborator it calls as an
  argument, in the order of the Go call, so that the theorems hold for whatever these
  libraries compute.
\<close>

subsection \<open>Data\<close>

type_synonym byte = "8 word"

text \<open>
  A Go byte slice is a list of bytes. The source never compares a slice with \<^verbatim>\<open>nil\<close>;
  \<^verbatim>\<open>nil\<close> is the slice of length 0, the empty list. The arrays \<^verbatim>\<open>[64]byte\<close> and
  \<^verbatim>\<open>[32]byte\<close> are lists too; what the type system of Go fixes about their length
  appears as a hypothesis where a theorem needs it.
\<close>

type_synonym bytes = "byte list"

type_synonym PrivateKey = bytes

type_synonym PublicKey = bytes

definition KeySize :: nat where
  "KeySize = 32"

definition NonceSize :: nat where
  "NonceSize = 24"

text \<open>
  The error values of the package, one constructor for each \<^verbatim>\<open>errors.New\<close> and
  \<^verbatim>\<open>fmt.Errorf\<close> of the source, and \<open>Collaborator\<close> for an error that a library
  returned and the package hands on unchanged (with the library's message).
\<close>

datatype error =
    Collaborator string
  | InvalidKey
  | ExpectedPublicKey
  | ExpectedNonce
  | BoxOpenFailed

fun error_text :: "error \<Rightarrow> string" where
  "error_text (Collaborator msg) = msg"
| "error_text InvalidKey = ''invalid key''"
| "error_text ExpectedPublicKey = ''invalid message: expected public key''"
| "error_text ExpectedNonce = ''invalid message: expected nonce''"
| "error_text BoxOpenFailed = ''invalid message: nacl box open failed''"

text \<open>The zero value of a byte array of length \<open>n\<close>.\<close>

definition zeros :: "nat \<Rightarrow> bytes" where
  "zeros n = replicate n 0"

text \<open>
  Go's builtin \<^verbatim>\<open>copy(dst, src)\<close>: the first \<^verbatim>\<open>min(len(dst), len(src))\<close> elements of
  \<open>dst\<close> are overwritten, the rest of \<open>dst\<close> stays. \<open>copy_at n dst src\<close> is
  \<^verbatim>\<open>copy(dst[n:], src)\<close>.
\<close>

definition copy_into :: "'a list \<Rightarrow> 'a list \<Rightarrow> 'a list" where
  "copy_into dst src = take (length dst) src @ drop (length src) dst"

definition copy_at :: "nat \<Rightarrow> 'a list \<Rightarrow> 'a list \<Rightarrow> 'a list" where
  "copy_at n dst src = take n dst @ copy_into (drop n dst) src"

subsection \<open>Keys\<close>

text \<open>
  \<^verbatim>\<open>Generate\<close>. Its argument is what \<^verbatim>\<open>box.GenerateKey(rand.Reader)\<close> returned: an
  error, or the public and the secret key.
\<close>

definition Generate :: "string + (bytes \<times> bytes) \<Rightarrow> PrivateKey \<times> error option" where
  "Generate generated =
     (let key = zeros (KeySize * 2) in
      case generated of
        Inl err \<Rightarrow> (key, Some (Collaborator err))
      | Inr (pub, priv) \<Rightarrow>
          (let key = copy_into key priv;
               key = copy_at KeySize key pub
           in (key, None)))"

text \<open>\<^verbatim>\<open>NewPrivateKey\<close>, with \<^verbatim>\<open>base58.Decode\<close> as \<open>decode\<close>.\<close>

definition NewPrivateKey :: "(string \<Rightarrow> string + bytes) \<Rightarrow> string \<Rightarrow> PrivateKey \<times> error option" where
  "NewPrivateKey decode str =
     (let key = zeros (KeySize * 2) in
      case decode str of
        Inl err \<Rightarrow> (key, Some (Collaborator err))
      | Inr bs \<Rightarrow>
          if length bs \<noteq> KeySize then (key, Some InvalidKey)
          else (copy_into key bs, None))"

text \<open>\<^verbatim>\<open>NewPublicKey\<close>.\<close>

definition NewPublicKey :: "(string \<Rightarrow> string + bytes) \<Rightarrow> string \<Rightarrow> PublicKey \<times> error option" where
  "NewPublicKey decode str =
     (let key = zeros KeySize in
      case decode str of
        Inl err \<Rightarrow> (key, Some (Collaborator err))
      | Inr bs \<Rightarrow>
          if length bs \<noteq> KeySize then (key, Some InvalidKey)
          else (copy_into key bs, None))"

text \<open>The method \<^verbatim>\<open>PublicKey\<close> of a private key.\<close>

definition PublicKey :: "PrivateKey \<Rightarrow> PublicKey" where
  "PublicKey key = copy_into (zeros KeySize) (drop KeySize key)"

text \<open>The two \<^verbatim>\<open>String\<close> methods, with \<^verbatim>\<open>base58.Encode\<close> as \<open>encode\<close>.\<close>

definition PrivateKey_String :: "(bytes \<Rightarrow> string) \<Rightarrow> PrivateKey \<Rightarrow> string" where
  "PrivateKey_String encode key = encode key"

definition PublicKey_String :: "(bytes \<Rightarrow> string) \<Rightarrow> PublicKey \<Rightarrow> string" where
  "PublicKey_String encode key = encode key"

subsection \<open>Messages\<close>

text \<open>
  \<^verbatim>\<open>Decrypt\<close>, with \<^verbatim>\<open>box.Open\<close> as \<open>box_open\<close>, called as
  \<open>box_open box nonce peersPublicKey privateKey\<close> and returning the opened bytes and
  the flag \<^verbatim>\<open>ok\<close>. The result is the triple the Go function returns.
\<close>

definition Decrypt ::
  "(bytes \<Rightarrow> bytes \<Rightarrow> bytes \<Rightarrow> bytes \<Rightarrow> bytes \<times> bool) \<Rightarrow> PrivateKey \<Rightarrow> bytes
     \<Rightarrow> PublicKey \<times> bytes \<times> error option" where
  "Decrypt box_open key data =
     (let priv = copy_into (zeros KeySize) key in
      if length data < KeySize then (zeros KeySize, [], Some ExpectedPublicKey)
      else
        let pub = copy_into (zeros KeySize) data;
            data = drop KeySize data
        in
          if length data < NonceSize then (pub, [], Some ExpectedNonce)
          else
            let nonce = copy_into (zeros NonceSize) data;
                data = drop NonceSize data;
                (opened, ok) = box_open data nonce pub priv
            in
              if \<not> ok then (pub, [], Some BoxOpenFailed)
              else (pub, opened, None))"

text \<open>
  \<^verbatim>\<open>Encrypt\<close>, with \<^verbatim>\<open>box.Seal\<close> as \<open>box_seal\<close>, called as
  \<open>box_seal message nonce peersPublicKey privateKey\<close>. \<open>generated\<close> is the
  \<^verbatim>\<open>Nonce\<close> that the call \<^verbatim>\<open>generateNonce()\<close> returned; \<open>generateNonce\<close> and the call
  itself, which panics instead of returning when the random source fails, follow in the
  next subsection.
\<close>

definition Encrypt ::
  "(bytes \<Rightarrow> bytes \<Rightarrow> bytes \<Rightarrow> bytes \<Rightarrow> bytes) \<Rightarrow> bytes \<Rightarrow> PrivateKey \<Rightarrow> PublicKey \<Rightarrow> bytes
     \<Rightarrow> bytes" where
  "Encrypt box_seal generated key peersPublicKey data =
     (let priv = copy_into (zeros KeySize) (take KeySize key);
          pub = copy_into (zeros KeySize) peersPublicKey;
          nonce = generated;
          sealed = box_seal data nonce pub priv;
          result = [];
          result = result @ drop KeySize key;
          result = result @ nonce;
          result = result @ sealed
      in result)"

text \<open>
  The YAML hooks. \<^verbatim>\<open>MarshalYAML\<close> hands the text form to the YAML library;
  \<^verbatim>\<open>UnmarshalYAML\<close> gets from the library's \<^verbatim>\<open>unmarshal\<close> callback an error or the
  string of the document, and assigns to \<^verbatim>\<open>*key\<close> what \<^verbatim>\<open>NewPrivateKey\<close> returned, also
  when that is an error. \<open>key\<close> is the key before the call.
\<close>

definition PrivateKey_MarshalYAML :: "(bytes \<Rightarrow> string) \<Rightarrow> PrivateKey \<Rightarrow> string \<times> error option" where
  "PrivateKey_MarshalYAML encode key = (PrivateKey_String encode key, None)"

definition PrivateKey_UnmarshalYAML ::
  "(string \<Rightarrow> string + bytes) \<Rightarrow> string + string \<Rightarrow> PrivateKey \<Rightarrow> PrivateKey \<times> error option" where
  "PrivateKey_UnmarshalYAML decode unmarshalled key =
     (case unmarshalled of
        Inl err \<Rightarrow> (key, Some (Collaborator err))
      | Inr str \<Rightarrow> NewPrivateKey decode str)"

subsection \<open>Calls in a state\<close>

text \<open>
  The package declares no variable. The one thing outside its arguments that a call can
  read or change is the random source of the process, \<^verbatim>\<open>rand.Reader\<close>; \<open>'w\<close> is its
  state. \<open>read_full n w\<close> is \<^verbatim>\<open>io.ReadFull(rand.Reader, buf)\<close> for a buffer of \<open>n\<close>
  bytes in the state \<open>w\<close>: an error or the bytes read, and the state of the source
  afterwards.

  \<^verbatim>\<open>generateNonce\<close>. \<open>Inl err\<close> is \<^verbatim>\<open>panic(err)\<close>.
\<close>

definition generateNonce ::
  "(nat \<Rightarrow> 'w \<Rightarrow> (string + bytes) \<times> 'w) \<Rightarrow> 'w \<Rightarrow> (string + bytes) \<times> 'w" where
  "generateNonce read_full w =
     (let nonce = zeros NonceSize;
          (r, w') = read_full (length nonce) w
      in case r of
           Inl err \<Rightarrow> (Inl err, w')
         | Inr bs \<Rightarrow> (Inr (copy_into nonce bs), w'))"

text \<open>
  \<^verbatim>\<open>Encrypt\<close> called in a state: the nonce is the one \<^verbatim>\<open>generateNonce\<close> returns there,
  and its panic ends the call.
\<close>

definition run_Encrypt ::
  "(bytes \<Rightarrow> bytes \<Rightarrow> bytes \<Rightarrow> bytes \<Rightarrow> bytes) \<Rightarrow> (nat \<Rightarrow> 'w \<Rightarrow> (string + bytes) \<times> 'w)
     \<Rightarrow> PrivateKey \<Rightarrow> PublicKey \<Rightarrow> bytes \<Rightarrow> 'w \<Rightarrow> (string + bytes) \<times> 'w" where
  "run_Encrypt box_seal read_full key peersPublicKey data w =
     (case generateNonce read_full w of
        (Inl err, w') \<Rightarrow> (Inl err, w')
      | (Inr nonce, w') \<Rightarrow> (Inr (Encrypt box_seal nonce key peersPublicKey data), w'))"


subsection \<open>Stand-ins for the collaborators\<close>

text \<open>
  No general theorem below depends on the definitions of this subsection. They give the
  closed instances (a theorem applied to a concrete input) collaborators to run with.

  The text codec is Base58 with the Bitcoin alphabet: the leading zero bytes become as
  many characters \<^verbatim>\<open>1\<close>, the rest is the number the bytes spell in base 256, written in
  base 58. Decoding refuses the empty string and every character outside the alphabet;
  the texts of its two errors are the stand-in's own.
\<close>

definition b58_alphabet :: string where
  "b58_alphabet = ''123456789ABCDEFGHJKLMNPQRSTUVWXYZabcdefghijkmnopqrstuvwxyz''"

definition int_of_digits :: "int \<Rightarrow> int list \<Rightarrow> int" where
  "int_of_digits b ds = foldl (\<lambda>acc d. acc * b + d) 0 ds"

function digits_of :: "int \<Rightarrow> int \<Rightarrow> int list \<Rightarrow> int list" where
  "digits_of b n acc = (if n \<le> 0 \<or> b < 2 then acc else digits_of b (n div b) (n mod b # acc))"
  by pat_completeness auto
termination
  by (relation "measure (\<lambda>(b, n, acc). nat n)") (auto intro!: int_div_less_self)

text \<open>A list of digits of base \<open>b\<close>: every element is at least 0 and below \<open>b\<close>.\<close>

definition digits_ok :: "int \<Rightarrow> int list \<Rightarrow> bool" where
  "digits_ok b ds = list_all (\<lambda>d. 0 \<le> d \<and> d < b) ds"

fun index_of :: "'a \<Rightarrow> 'a list \<Rightarrow> nat" where
  "index_of x [] = 0"
| "index_of x (y # ys) = (if x = y then 0 else Suc (index_of x ys))"

definition base58_Encode :: "bytes \<Rightarrow> string" where
  "base58_Encode bs =
     replicate (length (takeWhile (\<lambda>b. b = 0) bs)) (CHR ''1'') @
     map (\<lambda>d. b58_alphabet ! nat d) (digits_of 58 (int_of_digits 256 (map uint bs)) [])"

definition base58_Decode :: "string \<Rightarrow> string + bytes" where
  "base58_Decode s =
     (if s = [] then Inl ''zero length string''
      else if list_ex (\<lambda>c. c \<notin> set b58_alphabet) s then Inl ''invalid base58 digit''
      else Inr (replicate (length (takeWhile (\<lambda>c. c = CHR ''1'') s)) 0 @
                map word_of_int
                  (digits_of 256
                     (int_of_digits 58 (map (\<lambda>c. int (index_of c b58_alphabet)) s)) [])))"

text \<open>
  The box has the interface and the algebra of NaCl's and none of its security: a public
  key is a function of the secret key, the two sides of a conversation compute the same
  pad from their own secret and the other's public key, and a sealed message is a
  16-byte tag followed by the padded message.
\<close>

definition demo_public :: "bytes \<Rightarrow> bytes" where
  "demo_public priv = map (\<lambda>b. 3 * b + 1) priv"

definition demo_pad :: "bytes \<Rightarrow> bytes \<Rightarrow> bytes \<Rightarrow> byte" where
  "demo_pad nonce pub priv = fold (+) (nonce @ map2 (XOR) pub (demo_public priv)) 0"

definition demo_tag :: "byte \<Rightarrow> bytes \<Rightarrow> bytes" where
  "demo_tag pad c = replicate 16 (fold (+) c pad)"

definition demo_Seal :: "bytes \<Rightarrow> bytes \<Rightarrow> bytes \<Rightarrow> bytes \<Rightarrow> bytes" where
  "demo_Seal message nonce pub priv =
     (let pad = demo_pad nonce pub priv;
          c = map (\<lambda>x. x XOR pad) message
      in demo_tag pad c @ c)"

definition demo_Open :: "bytes \<Rightarrow> bytes \<Rightarrow> bytes \<Rightarrow> bytes \<Rightarrow> bytes \<times> bool" where
  "demo_Open box nonce pub priv =
     (let pad = demo_pad nonce pub priv;
          c = drop 16 box
      in if length box < 16 then ([], False)
         else if take 16 box = demo_tag pad c then (map (\<lambda>x. x XOR pad) c, True)
         else ([], False))"

text \<open>
  Three secret keys of the demo box, a nonce, a message, and the private keys that
  \<^verbatim>\<open>Generate\<close> packs from the first two secrets and their public keys.
\<close>

definition secret_a :: bytes where
  "secret_a = map of_nat [1 ..< 33]"

definition secret_b :: bytes where
  "secret_b = map of_nat [101 ..< 133]"

definition secret_c :: bytes where
  "secret_c = map of_nat [201 ..< 233]"

definition nonce24 :: bytes where
  "nonce24 = map of_nat [64 ..< 88]"

definition hello :: bytes where
  "hello = [0x48, 0x65, 0x6c, 0x6c, 0x6f, 0x20, 0x57, 0x6f, 0x72, 0x6c, 0x64]"

definition key_a :: PrivateKey where
  "key_a = secret_a @ demo_public secret_a"

definition key_b :: PrivateKey where
  "key_b = secret_b @ demo_public secret_b"

text \<open>
  A random source that delivers the bytes of a list in order and fails when the list is
  used up, two states of it, and the demo box's \<open>Open\<close> as a call in a state.
\<close>

definition demo_read :: "nat \<Rightarrow> bytes \<Rightarrow> (string + bytes) \<times> bytes" where
  "demo_read n w =
     (if n \<le> length w then (Inr (take n w), drop n w) else (Inl ''unexpected EOF'', []))"

definition source_1 :: bytes where
  "source_1 = map of_nat [64 ..< 112]"

definition source_2 :: bytes where
  "source_2 = map of_nat [150 ..< 198]"


text \<open>
  A key pair of X25519, the curve of NaCl's box: the secret and the public key of Alice in
  RFC 7748, section 6.1, and the private key \<^verbatim>\<open>Generate\<close> packs from them.
\<close>

definition rfc_secret :: bytes where
  "rfc_secret =
     [0x77, 0x07, 0x6d, 0x0a, 0x73, 0x18, 0xa5, 0x7d, 0x3c, 0x16, 0xc1, 0x72, 0x51, 0xb2, 0x66, 0x45,
      0xdf, 0x4c, 0x2f, 0x87, 0xeb, 0xc0, 0x99, 0x2a, 0xb1, 0x77, 0xfb, 0xa5, 0x1d, 0xb9, 0x2c, 0x2a]"

definition rfc_public :: bytes where
  "rfc_public =
     [0x85, 0x20, 0xf0, 0x09, 0x89, 0x30, 0xa7, 0x54, 0x74, 0x8b, 0x7d, 0xdc, 0xb4, 0x3e, 0xf7, 0x5a,
      0x0d, 0xbf, 0x3a, 0x0d, 0x26, 0x38, 0x1a, 0xf4, 0xeb, 0xa4, 0xa9, 0x8e, 0xaa, 0x9b, 0x4e, 0x6a]"

definition rfc_key :: PrivateKey where
  "rfc_key = rfc_secret @ rfc_public"

section \<open>Lengths, copies and the layout of a message\<close>

lemma length_zeros: "length (zeros n) = n"
  by (simp add: zeros_def)

lemma copy_into_exact: "length src = length dst \<Longrightarrow> copy_into dst src = src"
  by (simp add: copy_into_def)

lemma length_copy_into: "length (copy_into dst src) = length dst"
  by (simp add: copy_into_def)

lemma secret_half: "KeySize \<le> length key \<Longrightarrow> copy_into (zeros KeySize) key = take KeySize key"
  by (simp add: copy_into_def zeros_def)

lemma PublicKey_tail: "length key = 2 * KeySize \<Longrightarrow> PublicKey key = drop KeySize key"
  by (simp add: PublicKey_def copy_into_def zeros_def)

lemma PublicKey_nth:
  "length key = 2 * KeySize \<Longrightarrow> PublicKey key = map ((!) key) [KeySize ..< 2 * KeySize]"
proof -
  assume len: "length key = 2 * KeySize"
  have "drop KeySize key = map ((!) key) [KeySize ..< length key]"
    by (rule nth_equalityI) simp_all
  then show ?thesis using len by (simp add: PublicKey_tail)
qed

lemma Generate_pair:
  "length pub = KeySize \<Longrightarrow> length priv = KeySize \<Longrightarrow> Generate (Inr (pub, priv)) = (priv @ pub, None)"
  by (simp add: Generate_def Let_def copy_into_def copy_at_def zeros_def KeySize_def)

lemma Encrypt_layout:
  "Encrypt box_seal nonce key peer data =
     drop KeySize key @ nonce @
     box_seal data nonce (copy_into (zeros KeySize) peer) (copy_into (zeros KeySize) (take KeySize key))"
  by (simp add: Encrypt_def Let_def)

lemma Decrypt_framed:
  assumes "length pub = KeySize" and "length nonce = NonceSize"
  shows "Decrypt box_open key (pub @ nonce @ sealed) =
     (if snd (box_open sealed nonce pub (copy_into (zeros KeySize) key))
      then (pub, fst (box_open sealed nonce pub (copy_into (zeros KeySize) key)), None)
      else (pub, [], Some BoxOpenFailed))"
  using assms
  by (simp add: Decrypt_def Let_def copy_into_def zeros_def split: prod.splits)

lemma Decrypt_split:
  assumes "KeySize + NonceSize \<le> length data"
  shows "Decrypt box_open key data =
     (if snd (box_open (drop (KeySize + NonceSize) data) (take NonceSize (drop KeySize data))
                (take KeySize data) (copy_into (zeros KeySize) key))
      then (take KeySize data,
            fst (box_open (drop (KeySize + NonceSize) data) (take NonceSize (drop KeySize data))
                (take KeySize data) (copy_into (zeros KeySize) key)), None)
      else (take KeySize data, [], Some BoxOpenFailed))"
proof -
  have "data = take KeySize data @ take NonceSize (drop KeySize data) @ drop (KeySize + NonceSize) data"
    by (metis append_take_drop_id drop_drop add.commute)
  moreover have "length (take KeySize data) = KeySize" "length (take NonceSize (drop KeySize data)) = NonceSize"
    using assms by simp_all
  ultimately show ?thesis
    using Decrypt_framed [of "take KeySize data" "take NonceSize (drop KeySize data)" box_open key "drop (KeySize + NonceSize) data"]
    by simp
qed

section \<open>The stand-in codec inverts itself\<close>

text \<open>
  Writing a number in base \<open>b\<close> and reading the digits back are inverse to each other,
  on numbers from 0 and on digit lists without a leading zero.
\<close>

declare digits_of.simps [simp del]

lemma digits_of_stop: "n \<le> 0 \<or> b < 2 \<Longrightarrow> digits_of b n acc = acc"
  by (subst digits_of.simps) simp

lemma digits_of_unfold:
  "0 < n \<Longrightarrow> 2 \<le> b \<Longrightarrow> digits_of b n acc = digits_of b (n div b) (n mod b # acc)"
  by (subst digits_of.simps) simp

lemma digits_of_acc: "digits_of b n acc = digits_of b n [] @ acc"
proof (induction "nat n" arbitrary: n acc rule: less_induct)
  case less
  show ?case
  proof (cases "n \<le> 0 \<or> b < 2")
    case True
    then show ?thesis by (simp add: digits_of_stop)
  next
    case False
    then have pos: "0 < n" "2 \<le> b" by simp_all
    then have lt: "nat (n div b) < nat n"
      by (simp add: int_div_less_self zless_nat_conj)
    have "digits_of b n acc = digits_of b (n div b) (n mod b # acc)"
      using pos by (rule digits_of_unfold)
    also have "\<dots> = digits_of b (n div b) [] @ (n mod b # acc)"
      by (rule less [OF lt])
    also have "\<dots> = (digits_of b (n div b) [] @ [n mod b]) @ acc"
      by simp
    also have "digits_of b (n div b) [] @ [n mod b] = digits_of b (n div b) [n mod b]"
      by (rule less [OF lt, symmetric])
    also have "\<dots> = digits_of b n []"
      using pos by (rule digits_of_unfold [symmetric])
    finally show ?thesis .
  qed
qed

lemma digits_of_snoc:
  "0 < n \<Longrightarrow> 2 \<le> b \<Longrightarrow> digits_of b n [] = digits_of b (n div b) [] @ [n mod b]"
  using digits_of_acc [of b "n div b" "[n mod b]"] by (simp add: digits_of_unfold)

lemma int_of_digits_snoc: "int_of_digits b (ds @ [d]) = int_of_digits b ds * b + d"
  by (simp add: int_of_digits_def)

lemma int_of_digits_Nil: "int_of_digits b [] = 0"
  by (simp add: int_of_digits_def)

lemma int_of_digits_zeros: "int_of_digits b (replicate z 0 @ ds) = int_of_digits b ds"
proof -
  have "foldl (\<lambda>acc d. acc * b + d) 0 (replicate z 0) = 0"
    by (induction z) simp_all
  then show ?thesis by (simp add: int_of_digits_def)
qed

lemma int_of_digits_nonneg: "2 \<le> b \<Longrightarrow> digits_ok b ds \<Longrightarrow> 0 \<le> int_of_digits b ds"
  by (induction ds rule: rev_induct) (simp_all add: int_of_digits_Nil int_of_digits_snoc digits_ok_def)

lemma int_of_digits_pos:
  "2 \<le> b \<Longrightarrow> digits_ok b ds \<Longrightarrow> ds \<noteq> [] \<Longrightarrow> hd ds \<noteq> 0 \<Longrightarrow> 0 < int_of_digits b ds"
proof (induction ds rule: rev_induct)
  case Nil
  then show ?case by simp
next
  case (snoc d ds)
  show ?case
  proof (cases "ds = []")
    case True
    with snoc.prems show ?thesis
      by (simp add: int_of_digits_def digits_ok_def)
  next
    case False
    with snoc have "0 < int_of_digits b ds" by (simp add: digits_ok_def)
    moreover have "0 \<le> d" using snoc.prems by (simp add: digits_ok_def)
    ultimately show ?thesis
      using snoc.prems(1) by (simp add: int_of_digits_snoc add_pos_nonneg)
  qed
qed

lemma digits_of_int_of_digits:
  "2 \<le> b \<Longrightarrow> digits_ok b ds \<Longrightarrow> ds = [] \<or> hd ds \<noteq> 0 \<Longrightarrow> digits_of b (int_of_digits b ds) [] = ds"
proof (induction ds rule: rev_induct)
  case Nil
  then show ?case by (simp add: int_of_digits_Nil digits_of_stop)
next
  case (snoc d ds)
  have d: "0 \<le> d" "d < b" and ok: "digits_ok b ds"
    using snoc.prems by (simp_all add: digits_ok_def)
  have hd: "ds = [] \<or> hd ds \<noteq> 0"
    using snoc.prems(3) by (cases ds) simp_all
  have ih: "digits_of b (int_of_digits b ds) [] = ds"
    using snoc.IH [OF snoc.prems(1) ok hd] .
  have nn: "0 \<le> int_of_digits b ds"
    using snoc.prems(1) ok by (rule int_of_digits_nonneg)
  have pos: "0 < int_of_digits b ds * b + d"
  proof (cases "ds = []")
    case True
    with snoc.prems(3) d show ?thesis by (simp add: int_of_digits_Nil)
  next
    case False
    with hd have "0 < int_of_digits b ds"
      using int_of_digits_pos [OF snoc.prems(1) ok] by simp
    then have "0 < int_of_digits b ds * b" using snoc.prems(1) by simp
    with d show ?thesis by simp
  qed
  have q: "(int_of_digits b ds * b + d) div b = int_of_digits b ds"
    using d snoc.prems(1) by simp
  have r: "(int_of_digits b ds * b + d) mod b = d"
    using d by simp
  show ?case
    by (simp only: int_of_digits_snoc digits_of_snoc [OF pos snoc.prems(1)] q r ih)
qed

lemma int_of_digits_of:
  "0 \<le> n \<Longrightarrow> 2 \<le> b \<Longrightarrow> int_of_digits b (digits_of b n []) = n"
proof (induction "nat n" arbitrary: n rule: less_induct)
  case less
  show ?case
  proof (cases "n = 0")
    case True
    then show ?thesis by (simp add: digits_of_stop int_of_digits_Nil)
  next
    case False
    with less.prems have pos: "0 < n" by simp
    then have lt: "nat (n div b) < nat n"
      using less.prems(2) by (simp add: int_div_less_self zless_nat_conj)
    have "0 \<le> n div b" using pos less.prems(2) by (simp add: pos_imp_zdiv_nonneg_iff)
    then have "int_of_digits b (digits_of b (n div b) []) = n div b"
      using less.hyps [OF lt] less.prems(2) by simp
    then show ?thesis
      using pos less.prems(2) by (simp add: digits_of_snoc int_of_digits_snoc)
  qed
qed

lemma digits_of_ok: "0 \<le> n \<Longrightarrow> 2 \<le> b \<Longrightarrow> digits_ok b (digits_of b n [])"
proof (induction "nat n" arbitrary: n rule: less_induct)
  case less
  show ?case
  proof (cases "n = 0")
    case True
    then show ?thesis by (simp add: digits_of_stop digits_ok_def)
  next
    case False
    with less.prems have pos: "0 < n" by simp
    then have lt: "nat (n div b) < nat n"
      using less.prems(2) by (simp add: int_div_less_self zless_nat_conj)
    have "0 \<le> n div b" using pos less.prems(2) by (simp add: pos_imp_zdiv_nonneg_iff)
    then have "digits_ok b (digits_of b (n div b) [])"
      using less.hyps [OF lt] less.prems(2) by simp
    then show ?thesis
      using pos less.prems(2) by (simp add: digits_of_snoc digits_ok_def)
  qed
qed

lemma digits_of_hd:
  "0 < n \<Longrightarrow> 2 \<le> b \<Longrightarrow> digits_of b n [] \<noteq> [] \<and> hd (digits_of b n []) \<noteq> 0"
proof (induction "nat n" arbitrary: n rule: less_induct)
  case less
  show ?case
  proof (cases "n div b = 0")
    case True
    then have "n mod b = n"
      using div_mult_mod_eq [of n b] by simp
    then show ?thesis
      using less.prems True by (simp add: digits_of_snoc digits_of_stop)
  next
    case False
    have "0 \<le> n div b" using less.prems by (simp add: pos_imp_zdiv_nonneg_iff)
    with False have pos: "0 < n div b" by simp
    have lt: "nat (n div b) < nat n"
      using less.prems by (simp add: int_div_less_self zless_nat_conj)
    have "digits_of b (n div b) [] \<noteq> [] \<and> hd (digits_of b (n div b) []) \<noteq> 0"
      using less.hyps [OF lt pos less.prems(2)] .
    then show ?thesis
      using less.prems by (simp add: digits_of_snoc)
  qed
qed

text \<open>Base58 decoding undoes Base58 encoding on every byte string but the empty one.\<close>

lemma length_b58_alphabet: "length b58_alphabet = 58"
  by (simp add: b58_alphabet_def)

lemma distinct_b58_alphabet: "distinct b58_alphabet"
  by (simp add: b58_alphabet_def)

lemma b58_alphabet_0: "b58_alphabet ! 0 = CHR ''1''"
  by (simp add: b58_alphabet_def)

lemma index_of_nth: "distinct xs \<Longrightarrow> i < length xs \<Longrightarrow> index_of (xs ! i) xs = i"
proof (induction xs arbitrary: i)
  case Nil
  then show ?case by simp
next
  case (Cons x xs)
  then show ?case by (cases i) auto
qed

lemma takeWhile_eq_replicate:
  "takeWhile (\<lambda>x. x = a) xs = replicate (length (takeWhile (\<lambda>x. x = a) xs)) a"
  by (induction xs) simp_all

lemma takeWhile_replicate_append:
  "takeWhile (\<lambda>x. x = a) (replicate z a @ ys) = replicate z a @ takeWhile (\<lambda>x. x = a) ys"
  by (induction z) simp_all

lemma split_leading:
  "xs = replicate (length (takeWhile (\<lambda>x. x = a) xs)) a @ dropWhile (\<lambda>x. x = a) xs"
  using takeWhile_eq_replicate [of a xs] takeWhile_dropWhile_id [of "\<lambda>x. x = a" xs] by simp

lemma base58_roundtrip:
  assumes "bs \<noteq> []"
  shows "base58_Decode (base58_Encode bs) = Inr bs"
proof -
  define z where "z = length (takeWhile (\<lambda>b. b = 0) bs)"
  define rest where "rest = dropWhile (\<lambda>b. b = 0) bs"
  define N where "N = int_of_digits 256 (map uint rest)"
  define D where "D = digits_of 58 N []"
  define S where "S = map (\<lambda>d. b58_alphabet ! nat d) D"
  have bs: "bs = replicate z 0 @ rest"
    unfolding z_def rest_def by (rule split_leading)
  have rest_hd: "rest = [] \<or> hd rest \<noteq> 0"
    unfolding rest_def using hd_dropWhile [of "\<lambda>b. b = 0" bs] by blast
  have ok256: "digits_ok 256 (map uint rest)"
    using uint_bounded [where 'a = 8] by (simp add: digits_ok_def list_all_iff)
  have hd256: "map uint rest = [] \<or> hd (map uint rest) \<noteq> 0"
    using rest_hd by (cases rest) (simp_all add: uint_0_iff)
  have N: "int_of_digits 256 (map uint bs) = N"
    by (subst bs) (simp add: N_def int_of_digits_zeros)
  have N0: "0 \<le> N"
    unfolding N_def using ok256 by (simp add: int_of_digits_nonneg)
  have Dok: "digits_ok 58 D" and Dval: "int_of_digits 58 D = N"
    unfolding D_def using N0 by (simp_all add: digits_of_ok int_of_digits_of)
  have Dhd: "D = [] \<or> hd D \<noteq> 0"
  proof (cases "N = 0")
    case True
    then show ?thesis by (simp add: D_def digits_of_stop)
  next
    case False
    with N0 have "0 < N" by simp
    then show ?thesis unfolding D_def using digits_of_hd [of N 58] by simp
  qed
  have Dnat: "\<forall>d \<in> set D. 0 \<le> d \<and> nat d < 58"
    using Dok by (auto simp: digits_ok_def list_all_iff)
  have enc: "base58_Encode bs = replicate z (CHR ''1'') @ S"
    by (simp add: base58_Encode_def N z_def S_def D_def)
  have nonempty: "replicate z (CHR ''1'') @ S \<noteq> []"
  proof (cases "z = 0")
    case True
    with bs assms have "rest \<noteq> []" by simp
    with rest_hd hd256 ok256 have "0 < N"
      unfolding N_def by (intro int_of_digits_pos) simp_all
    then have "D \<noteq> []" unfolding D_def using digits_of_hd [of N 58] by simp
    then show ?thesis by (simp add: S_def)
  next
    case False
    then show ?thesis by simp
  qed
  have one: "CHR ''1'' \<in> set b58_alphabet"
    by (simp add: b58_alphabet_def)
  have S_in: "set S \<subseteq> set b58_alphabet"
    using Dnat by (auto simp: S_def length_b58_alphabet)
  have inside: "\<not> list_ex (\<lambda>c. c \<notin> set b58_alphabet) (replicate z (CHR ''1'') @ S)"
    using one S_in by (auto simp: list_ex_iff)
  have S_hd: "S = [] \<or> hd S \<noteq> CHR ''1''"
  proof (cases D)
    case Nil
    then show ?thesis by (simp add: S_def)
  next
    case (Cons d ds)
    with Dhd Dnat have d: "d \<noteq> 0" "0 \<le> d" "nat d < 58" by simp_all
    have "index_of (b58_alphabet ! nat d) b58_alphabet = nat d"
      using d by (simp add: index_of_nth distinct_b58_alphabet length_b58_alphabet)
    moreover have "index_of (CHR ''1'') b58_alphabet = 0"
      by (simp add: b58_alphabet_def)
    ultimately have "b58_alphabet ! nat d \<noteq> CHR ''1''"
      using d by auto
    then show ?thesis by (simp add: S_def Cons)
  qed
  have leading: "takeWhile (\<lambda>c. c = CHR ''1'') (replicate z (CHR ''1'') @ S) = replicate z (CHR ''1'')"
    using S_hd by (cases S) (simp_all add: takeWhile_replicate_append)
  have index: "map (\<lambda>c. int (index_of c b58_alphabet)) S = D"
  proof -
    have "\<forall>d \<in> set D. int (index_of (b58_alphabet ! nat d) b58_alphabet) = d"
      using Dnat by (simp add: index_of_nth distinct_b58_alphabet length_b58_alphabet)
    then show ?thesis by (simp add: S_def comp_def map_idI)
  qed
  have zeros58: "map (\<lambda>c. int (index_of c b58_alphabet)) (replicate z (CHR ''1'')) = replicate z 0"
    by (simp add: b58_alphabet_def)
  have number: "int_of_digits 58 (map (\<lambda>c. int (index_of c b58_alphabet)) (replicate z (CHR ''1'') @ S)) = N"
    by (simp only: map_append zeros58 index int_of_digits_zeros Dval)
  have unique: "digits_of 256 N [] = map uint rest"
    unfolding N_def using ok256 hd256 by (intro digits_of_int_of_digits) simp_all
  have "base58_Decode (replicate z (CHR ''1'') @ S) = Inr (replicate z 0 @ map word_of_int (map uint rest))"
    unfolding base58_Decode_def using nonempty inside
    by (simp only: leading number unique length_replicate if_False)
  also have "map word_of_int (map uint rest) = rest"
    by (simp add: comp_def)
  finally show ?thesis
    by (simp add: enc bs [symmetric])
qed

section \<open>The stand-in box at the demo keys\<close>

lemma demo_lengths:
  "length secret_a = KeySize" "length secret_b = KeySize" "length secret_c = KeySize"
  "length (demo_public secret_a) = KeySize" "length (demo_public secret_b) = KeySize"
  "length (demo_public secret_c) = KeySize"
  "length nonce24 = NonceSize" "length key_a = 2 * KeySize" "length key_b = 2 * KeySize"
  by (simp_all add: secret_a_def secret_b_def secret_c_def demo_public_def nonce24_def
      key_a_def key_b_def KeySize_def NonceSize_def)

lemma rfc_lengths:
  "length rfc_secret = KeySize" "length rfc_public = KeySize" "length rfc_key = 2 * KeySize"
  by (simp_all add: rfc_secret_def rfc_public_def rfc_key_def KeySize_def)

lemma Generate_a: "Generate (Inr (demo_public secret_a, secret_a)) = (key_a, None)"
  by (simp add: Generate_pair demo_lengths key_a_def)

lemma Generate_b: "Generate (Inr (demo_public secret_b, secret_b)) = (key_b, None)"
  by (simp add: Generate_pair demo_lengths key_b_def)

lemma key_a_halves: "take 32 key_a = secret_a" "PublicKey key_a = demo_public secret_a"
  using demo_lengths by (simp_all add: key_a_def PublicKey_tail KeySize_def)

lemma key_b_halves: "take 32 key_b = secret_b" "PublicKey key_b = demo_public secret_b"
  using demo_lengths by (simp_all add: key_b_def PublicKey_tail KeySize_def)

text \<open>What \<^verbatim>\<open>a\<close> seals for \<^verbatim>\<open>b\<close>, \<^verbatim>\<open>b\<close> opens.\<close>

lemma demo_box_hello:
  "demo_Open (demo_Seal hello nonce24 (demo_public secret_b) secret_a) nonce24
     (demo_public secret_a) secret_b = (hello, True)"
  by code_simp

lemma demo_box_empty:
  "demo_Open (demo_Seal [] nonce24 (demo_public secret_b) secret_a) nonce24
     (demo_public secret_a) secret_b = ([], True)"
  by code_simp

text \<open>
  A flipped bit in the sealed bytes, and a message sealed for \<^verbatim>\<open>c\<close>, are both refused
  when \<^verbatim>\<open>b\<close> opens them.
\<close>

lemma demo_box_flipped:
  "\<not> snd (demo_Open
       ((demo_Seal hello nonce24 (demo_public secret_b) secret_a)
          [20 := demo_Seal hello nonce24 (demo_public secret_b) secret_a ! 20 XOR push_bit 3 1])
       nonce24 (demo_public secret_a) secret_b)"
  by code_simp

lemma demo_box_other:
  "\<not> snd (demo_Open (demo_Seal hello nonce24 (demo_public secret_c) secret_a) nonce24
       (demo_public secret_a) secret_b)"
  by code_simp

lemma demo_sealed_length:
  "length (demo_Seal hello nonce24 (demo_public secret_b) secret_a) = 27"
  by (simp add: demo_Seal_def demo_tag_def hello_def Let_def)

section \<open>Round trip of a message\<close>

text \<open>
  C1. Let \<open>A\<close> and \<open>B\<close> be private keys that \<^verbatim>\<open>Generate\<close> returned without an error,
  from the key pairs \<open>(pubA, privA)\<close> and \<open>(pubB, privB)\<close> of \<^verbatim>\<open>box.GenerateKey\<close>, let
  \<open>nonce\<close> be the 24 bytes \<^verbatim>\<open>generateNonce\<close> returned and \<open>m\<close> any payload, the empty
  one included. If \<^verbatim>\<open>box.Open\<close> with B's secret and A's public key opens what
  \<^verbatim>\<open>box.Seal\<close> sealed with A's secret and B's public key under that nonce (the contract
  of the box for two key pairs), then \<open>B.Decrypt(A.Encrypt(B.PublicKey(), m))\<close> returns
  A's public key, the payload \<open>m\<close> and no error.
\<close>

theorem Decrypt_Encrypt:
  assumes A: "Generate (Inr (pubA, privA)) = (A, None)"
    and B: "Generate (Inr (pubB, privB)) = (B, None)"
    and lens: "length pubA = KeySize" "length privA = KeySize"
      "length pubB = KeySize" "length privB = KeySize"
    and nonce: "length nonce = NonceSize"
    and box: "box_open (box_seal m nonce pubB privA) nonce pubA privB = (m, True)"
  shows "Decrypt box_open B (Encrypt box_seal nonce A (PublicKey B) m) = (PublicKey A, m, None)"
proof -
  have a: "A = privA @ pubA" and b: "B = privB @ pubB"
    using A B lens by (simp_all add: Generate_pair)
  have pa: "PublicKey A = pubA" and pb: "PublicKey B = pubB"
    using a b lens by (simp_all add: PublicKey_tail)
  have "Encrypt box_seal nonce A (PublicKey B) m = pubA @ nonce @ box_seal m nonce pubB privA"
    using a lens by (simp add: Encrypt_layout pb copy_into_exact length_zeros)
  moreover have "copy_into (zeros KeySize) B = privB"
    using b lens by (simp add: secret_half)
  ultimately show ?thesis
    using lens nonce box by (simp add: Decrypt_framed pa)
qed

text \<open>The theorem at the demo keys, for the payload "Hello World" and for the empty one.\<close>

theorem Decrypt_Encrypt_witness:
  "Decrypt demo_Open key_b (Encrypt demo_Seal nonce24 key_a (PublicKey key_b) hello)
     = (PublicKey key_a, hello, None)
   \<and> Decrypt demo_Open key_b (Encrypt demo_Seal nonce24 key_a (PublicKey key_b) [])
     = (PublicKey key_a, [], None)"
proof
  show "Decrypt demo_Open key_b (Encrypt demo_Seal nonce24 key_a (PublicKey key_b) hello)
     = (PublicKey key_a, hello, None)"
    by (rule Decrypt_Encrypt [where box_open = demo_Open and box_seal = demo_Seal,
          OF Generate_a Generate_b demo_lengths(4) demo_lengths(1) demo_lengths(5)
          demo_lengths(2) demo_lengths(7) demo_box_hello])
  show "Decrypt demo_Open key_b (Encrypt demo_Seal nonce24 key_a (PublicKey key_b) [])
     = (PublicKey key_a, [], None)"
    by (rule Decrypt_Encrypt [where box_open = demo_Open and box_seal = demo_Seal,
          OF Generate_a Generate_b demo_lengths(4) demo_lengths(1) demo_lengths(5)
          demo_lengths(2) demo_lengths(7) demo_box_empty])
qed

section \<open>The wire format\<close>

text \<open>
  C5. For a private key (64 bytes), a peer public key (32 bytes) and the nonce
  \<^verbatim>\<open>generateNonce\<close> returned (24 bytes), the bytes \<^verbatim>\<open>Encrypt\<close> returns are the sender's
  own public key, that is bytes 32 to 63 of the private key, then the nonce, then what
  \<^verbatim>\<open>box.Seal\<close> returned for the payload, that nonce, the peer's public key and the
  sender's secret: the public key at offsets 0 to 31, the nonce at 32 to 55, the sealed
  bytes from 56 on.
\<close>

theorem Encrypt_wire_format:
  assumes "length key = 2 * KeySize" and "length nonce = NonceSize" and "length peer = KeySize"
  shows "Encrypt box_seal nonce key peer data
           = PublicKey key @ nonce @ box_seal data nonce peer (take KeySize key)
         \<and> take 32 (Encrypt box_seal nonce key peer data) = map ((!) key) [32 ..< 64]
         \<and> take 24 (drop 32 (Encrypt box_seal nonce key peer data)) = nonce
         \<and> drop 56 (Encrypt box_seal nonce key peer data)
             = box_seal data nonce peer (take KeySize key)"
proof -
  have e: "Encrypt box_seal nonce key peer data
      = PublicKey key @ nonce @ box_seal data nonce peer (take KeySize key)"
    using assms by (simp add: Encrypt_layout PublicKey_tail copy_into_exact length_zeros)
  have l: "length (PublicKey key) = 32"
    by (simp add: PublicKey_def length_copy_into length_zeros KeySize_def)
  have n: "PublicKey key = map ((!) key) [32 ..< 64]"
    using PublicKey_nth [OF assms(1)] by (simp add: KeySize_def)
  show ?thesis
    using l n assms(2) by (simp add: e NonceSize_def)
qed

text \<open>The theorem at the demo key \<open>key_a\<close>, sealing "Hello World" for \<open>b\<close>.\<close>

theorem Encrypt_wire_format_witness:
  "Encrypt demo_Seal nonce24 key_a (demo_public secret_b) hello
     = PublicKey key_a @ nonce24
       @ demo_Seal hello nonce24 (demo_public secret_b) (take KeySize key_a)
   \<and> take 32 (Encrypt demo_Seal nonce24 key_a (demo_public secret_b) hello)
       = map ((!) key_a) [32 ..< 64]
   \<and> take 24 (drop 32 (Encrypt demo_Seal nonce24 key_a (demo_public secret_b) hello)) = nonce24
   \<and> drop 56 (Encrypt demo_Seal nonce24 key_a (demo_public secret_b) hello)
       = demo_Seal hello nonce24 (demo_public secret_b) (take KeySize key_a)"
  by (rule Encrypt_wire_format [OF demo_lengths(8) demo_lengths(7) demo_lengths(5)])

section \<open>Truncated messages\<close>

text \<open>
  C4. \<^verbatim>\<open>Decrypt\<close> returns the error "invalid message: expected public key" exactly when
  the input has fewer than 32 bytes, and the different error "invalid message: expected
  nonce" exactly when it has at least 32 and fewer than 56 bytes, for every key and
  whatever \<^verbatim>\<open>box.Open\<close> does.
\<close>

theorem Decrypt_truncated:
  "(snd (snd (Decrypt box_open key data)) = Some ExpectedPublicKey) = (length data < 32)
   \<and> (snd (snd (Decrypt box_open key data)) = Some ExpectedNonce)
       = (32 \<le> length data \<and> length data < 56)
   \<and> ExpectedPublicKey \<noteq> ExpectedNonce
   \<and> error_text ExpectedPublicKey \<noteq> error_text ExpectedNonce"
  by (auto simp: Decrypt_def Let_def KeySize_def NonceSize_def split: prod.splits)

text \<open>An input of 10 bytes gives the first error, one of 40 bytes the second.\<close>

theorem Decrypt_truncated_witness:
  "snd (snd (Decrypt demo_Open key_b (replicate 10 7))) = Some ExpectedPublicKey
   \<and> snd (snd (Decrypt demo_Open key_b (replicate 40 7))) = Some ExpectedNonce"
  using Decrypt_truncated [of demo_Open key_b "replicate 10 7"]
    Decrypt_truncated [of demo_Open key_b "replicate 40 7"]
  by simp

text \<open>
  C10. On an input of at least 32 and fewer than 56 bytes \<^verbatim>\<open>Decrypt\<close> returns, next to
  the error, the public key it read from the first 32 bytes; on an input of fewer than 32
  bytes it returns the all-zero public key. The payload it returns is \<^verbatim>\<open>nil\<close> in both
  cases.
\<close>

theorem Decrypt_truncated_results:
  "(length data < 32 \<longrightarrow>
      Decrypt box_open key data = (zeros 32, [], Some ExpectedPublicKey))
   \<and> (32 \<le> length data \<and> length data < 56 \<longrightarrow>
      Decrypt box_open key data = (take 32 data, [], Some ExpectedNonce))"
  by (auto simp: Decrypt_def Let_def KeySize_def NonceSize_def copy_into_def zeros_def)

text \<open>The two cases at the first 10 and the first 40 bytes of a message for \<open>b\<close>.\<close>

theorem Decrypt_truncated_results_witness:
  "Decrypt demo_Open key_b (take 10 (Encrypt demo_Seal nonce24 key_a (PublicKey key_b) hello))
     = (zeros 32, [], Some ExpectedPublicKey)
   \<and> Decrypt demo_Open key_b (take 40 (Encrypt demo_Seal nonce24 key_a (PublicKey key_b) hello))
     = (PublicKey key_a, [], Some ExpectedNonce)"
proof -
  let ?blob = "Encrypt demo_Seal nonce24 key_a (PublicKey key_b) hello"
  have blob: "?blob = PublicKey key_a @ nonce24
      @ demo_Seal hello nonce24 (PublicKey key_b) (take KeySize key_a)"
    using demo_lengths by (simp add: Encrypt_layout PublicKey_tail copy_into_exact length_zeros
        key_b_halves)
  have lp: "length (PublicKey key_a) = 32"
    using demo_lengths by (simp add: key_a_halves KeySize_def)
  have l10: "length (take 10 ?blob) < 32"
    by simp
  have l40: "32 \<le> length (take 40 ?blob) \<and> length (take 40 ?blob) < 56"
    using lp demo_lengths(7) by (simp add: blob NonceSize_def)
  have pub: "take 32 (take 40 ?blob) = PublicKey key_a"
    using lp by (simp add: blob)
  show ?thesis
    using Decrypt_truncated_results [of "take 10 ?blob" demo_Open key_b]
      Decrypt_truncated_results [of "take 40 ?blob" demo_Open key_b] l10 l40 pub
    by simp
qed

section \<open>Rejected messages\<close>

text \<open>
  C7. Let the receiver's key have 64 bytes. (1) On every input of at least 56 bytes for
  which \<^verbatim>\<open>box.Open\<close>, called with the bytes from offset 56, the nonce at offsets 32 to 55,
  the public key at offsets 0 to 31 and the receiver's secret, answers "not ok",
  \<^verbatim>\<open>Decrypt\<close> returns the error "invalid message: nacl box open failed" and a \<^verbatim>\<open>nil\<close>
  payload, whatever bytes \<^verbatim>\<open>box.Open\<close> handed back. (2) For a blob \<^verbatim>\<open>Encrypt\<close> made and
  any one bit \<open>b\<close> of any byte \<open>i\<close> of its sealed region flipped, \<^verbatim>\<open>Decrypt\<close> hands
  \<^verbatim>\<open>box.Open\<close> the sealed bytes with that bit flipped, with the nonce and the sender's
  public key untouched, and returns that error and no payload when \<^verbatim>\<open>box.Open\<close> refuses
  them. (3) For a blob sealed for the public key \<open>peer\<close>, another recipient's own
  included, \<^verbatim>\<open>Decrypt\<close> returns that error and no payload when \<^verbatim>\<open>box.Open\<close> refuses the
  sealed bytes under the receiver's secret.
\<close>

theorem Decrypt_rejected:
  assumes key: "length key = 2 * KeySize"
    and sender: "length sender = 2 * KeySize"
    and nonce: "length nonce = NonceSize"
    and peer: "length peer = KeySize"
  shows
    "(56 \<le> length data
        \<and> \<not> snd (box_open (drop 56 data) (take 24 (drop 32 data)) (take 32 data) (take 32 key))
      \<longrightarrow> Decrypt box_open key data = (take 32 data, [], Some BoxOpenFailed))
   \<and> (i < length (box_seal m nonce peer (take 32 sender)) \<and> b < 8
        \<and> \<not> snd (box_open
                   ((box_seal m nonce peer (take 32 sender))
                      [i := box_seal m nonce peer (take 32 sender) ! i XOR push_bit b 1])
                   nonce (PublicKey sender) (take 32 key))
      \<longrightarrow> Decrypt box_open key
            ((Encrypt box_seal nonce sender peer m)
               [56 + i := Encrypt box_seal nonce sender peer m ! (56 + i) XOR push_bit b 1])
          = (PublicKey sender, [], Some BoxOpenFailed))
   \<and> (\<not> snd (box_open (box_seal m nonce peer (take 32 sender)) nonce (PublicKey sender)
                 (take 32 key))
      \<longrightarrow> Decrypt box_open key (Encrypt box_seal nonce sender peer m)
          = (PublicKey sender, [], Some BoxOpenFailed))"
proof -
  define sealed where "sealed = box_seal m nonce peer (take 32 sender)"
  have priv: "copy_into (zeros KeySize) key = take 32 key"
    using key by (simp add: secret_half) (simp add: KeySize_def)
  have blob: "Encrypt box_seal nonce sender peer m = PublicKey sender @ nonce @ sealed"
    using sender peer
    by (simp add: Encrypt_layout PublicKey_tail copy_into_exact length_zeros sealed_def KeySize_def)
  have lp: "length (PublicKey sender) = KeySize"
    by (simp add: PublicKey_def length_copy_into length_zeros)
  have general: "56 \<le> length data
        \<and> \<not> snd (box_open (drop 56 data) (take 24 (drop 32 data)) (take 32 data) (take 32 key))
      \<longrightarrow> Decrypt box_open key data = (take 32 data, [], Some BoxOpenFailed)"
    using Decrypt_split [of data box_open key] by (simp add: priv) (simp add: KeySize_def NonceSize_def)
  have flipped: "(PublicKey sender @ nonce @ sealed)
        [56 + i := (PublicKey sender @ nonce @ sealed) ! (56 + i) XOR push_bit b 1]
      = PublicKey sender @ nonce @ sealed [i := sealed ! i XOR push_bit b 1]"
    using lp nonce by (simp add: list_update_append nth_append KeySize_def NonceSize_def)
  show ?thesis
    unfolding blob flipped sealed_def [symmetric]
    using general lp nonce by (simp add: Decrypt_framed priv)
qed

text \<open>
  The theorem at the demo keys: bit 3 of byte 20 of the sealed bytes flipped in a message
  of \<open>a\<close> for \<open>b\<close>, and a message of \<open>a\<close> for \<open>c\<close>, both given to \<open>b\<close>. The flipped
  blob is an input of case (1) as well.
\<close>

theorem Decrypt_rejected_witness:
  "Decrypt demo_Open key_b
     ((Encrypt demo_Seal nonce24 key_a (demo_public secret_b) hello)
        [56 + 20 := Encrypt demo_Seal nonce24 key_a (demo_public secret_b) hello ! (56 + 20)
                      XOR push_bit 3 1])
     = (PublicKey key_a, [], Some BoxOpenFailed)
   \<and> Decrypt demo_Open key_b (Encrypt demo_Seal nonce24 key_a (demo_public secret_c) hello)
     = (PublicKey key_a, [], Some BoxOpenFailed)"
proof
  have "20 < length (demo_Seal hello nonce24 (demo_public secret_b) (take 32 key_a)) \<and> (3::nat) < 8
      \<and> \<not> snd (demo_Open
           ((demo_Seal hello nonce24 (demo_public secret_b) (take 32 key_a))
              [20 := demo_Seal hello nonce24 (demo_public secret_b) (take 32 key_a) ! 20
                       XOR push_bit 3 1])
           nonce24 (PublicKey key_a) (take 32 key_b))"
    using demo_box_flipped by (simp add: key_a_halves key_b_halves demo_sealed_length)
  then show "Decrypt demo_Open key_b
     ((Encrypt demo_Seal nonce24 key_a (demo_public secret_b) hello)
        [56 + 20 := Encrypt demo_Seal nonce24 key_a (demo_public secret_b) hello ! (56 + 20)
                      XOR push_bit 3 1])
     = (PublicKey key_a, [], Some BoxOpenFailed)"
    using Decrypt_rejected [where box_open = demo_Open and box_seal = demo_Seal and i = 20
        and b = 3 and m = hello,
        OF demo_lengths(9) demo_lengths(8) demo_lengths(7) demo_lengths(5)]
    by blast
  have "\<not> snd (demo_Open (demo_Seal hello nonce24 (demo_public secret_c) (take 32 key_a)) nonce24
      (PublicKey key_a) (take 32 key_b))"
    using demo_box_other by (simp add: key_a_halves key_b_halves)
  then show "Decrypt demo_Open key_b (Encrypt demo_Seal nonce24 key_a (demo_public secret_c) hello)
     = (PublicKey key_a, [], Some BoxOpenFailed)"
    using Decrypt_rejected [where box_open = demo_Open and box_seal = demo_Seal and m = hello,
        OF demo_lengths(9) demo_lengths(8) demo_lengths(7) demo_lengths(6)]
    by blast
qed

section \<open>Decrypt reads no state\<close>


text \<open>
  \<^verbatim>\<open>Encrypt\<close> is a call whose result depends on the state: in the state \<open>source_1\<close> the
  nonce is \<open>nonce24\<close>, in \<open>source_2\<close> it is another one, and the two blobs differ.
\<close>

lemma generateNonce_source_1:
  "generateNonce demo_read source_1 = (Inr nonce24, drop 24 source_1)"
  by code_simp

lemma run_Encrypt_depends_on_state:
  "fst (run_Encrypt demo_Seal demo_read key_a (PublicKey key_b) hello source_1)
     = Inr (Encrypt demo_Seal nonce24 key_a (PublicKey key_b) hello)
   \<and> fst (run_Encrypt demo_Seal demo_read key_a (PublicKey key_b) hello source_1)
     \<noteq> fst (run_Encrypt demo_Seal demo_read key_a (PublicKey key_b) hello source_2)"
  by code_simp



section \<open>Keys as text\<close>

text \<open>
  C6. For every string, \<^verbatim>\<open>NewPublicKey\<close> and \<^verbatim>\<open>NewPrivateKey\<close> return the error of
  \<^verbatim>\<open>base58.Decode\<close> exactly when \<^verbatim>\<open>base58.Decode\<close> fails with it, and the error
  "invalid key" exactly when \<^verbatim>\<open>base58.Decode\<close> succeeds with a number of bytes other than
  32. Whenever they return an error, the key they return is the all-zero key.
\<close>

theorem New_key_errors:
  "(snd (NewPublicKey decode str) = Some (Collaborator msg)) = (decode str = Inl msg)
   \<and> (snd (NewPublicKey decode str) = Some InvalidKey)
       = (\<exists>bs. decode str = Inr bs \<and> length bs \<noteq> 32)
   \<and> (snd (NewPublicKey decode str) \<noteq> None \<longrightarrow> fst (NewPublicKey decode str) = zeros 32)
   \<and> (snd (NewPrivateKey decode str) = Some (Collaborator msg)) = (decode str = Inl msg)
   \<and> (snd (NewPrivateKey decode str) = Some InvalidKey)
       = (\<exists>bs. decode str = Inr bs \<and> length bs \<noteq> 32)
   \<and> (snd (NewPrivateKey decode str) \<noteq> None \<longrightarrow> fst (NewPrivateKey decode str) = zeros 64)"
  by (cases "decode str") (simp_all add: NewPublicKey_def NewPrivateKey_def KeySize_def Let_def)

lemma base58_Decode_invalid: "base58_Decode ''not-valid-base58!!'' = Inl ''invalid base58 digit''"
  by code_simp

lemma base58_Decode_ten: "base58_Decode ''4HUtbHhN2TkpR'' = Inr [1, 2, 3, 4, 5, 6, 7, 8, 9, 10]"
  by code_simp

text \<open>
  The theorem, with Base58 as the codec, at a string that is not Base58 and at the
  Base58 text of the ten bytes 1 to 10.
\<close>

theorem New_key_errors_witness:
  "snd (NewPublicKey base58_Decode ''not-valid-base58!!'')
     = Some (Collaborator ''invalid base58 digit'')
   \<and> fst (NewPublicKey base58_Decode ''not-valid-base58!!'') = zeros 32
   \<and> snd (NewPublicKey base58_Decode ''4HUtbHhN2TkpR'') = Some InvalidKey
   \<and> fst (NewPublicKey base58_Decode ''4HUtbHhN2TkpR'') = zeros 32
   \<and> snd (NewPrivateKey base58_Decode ''not-valid-base58!!'')
     = Some (Collaborator ''invalid base58 digit'')
   \<and> fst (NewPrivateKey base58_Decode ''not-valid-base58!!'') = zeros 64
   \<and> snd (NewPrivateKey base58_Decode ''4HUtbHhN2TkpR'') = Some InvalidKey
   \<and> fst (NewPrivateKey base58_Decode ''4HUtbHhN2TkpR'') = zeros 64"
  using New_key_errors [of base58_Decode "''not-valid-base58!!''" "''invalid base58 digit''"]
    New_key_errors [of base58_Decode "''4HUtbHhN2TkpR''" "''''"]
    base58_Decode_invalid base58_Decode_ten
  by simp

text \<open>
  C9. For every public key \<open>p\<close> of 32 bytes, one that \<^verbatim>\<open>Generate\<close> produced included,
  whose text \<^verbatim>\<open>base58.Decode\<close> decodes back to \<open>p\<close>, \<^verbatim>\<open>NewPublicKey\<close> on the text
  \<^verbatim>\<open>p.String()\<close> returns \<open>p\<close> and no error.
\<close>

theorem PublicKey_text_roundtrip:
  assumes "length p = KeySize" and "decode (encode p) = Inr p"
  shows "NewPublicKey decode (PublicKey_String encode p) = (p, None)"
  using assms by (simp add: NewPublicKey_def PublicKey_String_def copy_into_exact length_zeros)

text \<open>
  The theorem, with Base58 as the codec, at the public key of the private key that
  \<^verbatim>\<open>Generate\<close> packs from the key pair of RFC 7748.
\<close>

theorem PublicKey_text_roundtrip_witness:
  "Generate (Inr (rfc_public, rfc_secret)) = (rfc_key, None)
   \<and> NewPublicKey base58_Decode (PublicKey_String base58_Encode (PublicKey rfc_key))
     = (PublicKey rfc_key, None)"
proof
  show "Generate (Inr (rfc_public, rfc_secret)) = (rfc_key, None)"
    by (simp add: Generate_pair rfc_lengths rfc_key_def)
  have p: "PublicKey rfc_key = rfc_public"
    using rfc_lengths by (simp add: PublicKey_tail rfc_key_def)
  have "rfc_public \<noteq> []"
    by (simp add: rfc_public_def)
  then have "base58_Decode (base58_Encode rfc_public) = Inr rfc_public"
    by (rule base58_roundtrip)
  then show "NewPublicKey base58_Decode (PublicKey_String base58_Encode (PublicKey rfc_key))
     = (PublicKey rfc_key, None)"
    unfolding p using rfc_lengths(2) by (intro PublicKey_text_roundtrip)
qed

text \<open>
  C2. The claim is that \<^verbatim>\<open>NewPrivateKey\<close> on the text \<^verbatim>\<open>k.String()\<close> of a generated
  private key \<open>k\<close> returns \<open>k\<close>. The code does the opposite: \<^verbatim>\<open>String\<close> encodes all 64
  bytes of the key and \<^verbatim>\<open>NewPrivateKey\<close> accepts 32 decoded bytes only, so for every
  private key whose text \<^verbatim>\<open>base58.Decode\<close> decodes back to its 64 bytes,
  \<^verbatim>\<open>NewPrivateKey\<close> returns the all-zero key and the error "invalid key"; and
  \<^verbatim>\<open>UnmarshalYAML\<close> on what \<^verbatim>\<open>MarshalYAML\<close> wrote does the same, replacing the key by the
  all-zero key.
\<close>

theorem PrivateKey_text_rejected:
  assumes "length key = 2 * KeySize" and "decode (encode key) = Inr key"
  shows "NewPrivateKey decode (PrivateKey_String encode key) = (zeros 64, Some InvalidKey)
    \<and> PrivateKey_UnmarshalYAML decode (Inr (fst (PrivateKey_MarshalYAML encode key))) key
        = (zeros 64, Some InvalidKey)"
  using assms
  by (simp add: NewPrivateKey_def PrivateKey_String_def PrivateKey_UnmarshalYAML_def
      PrivateKey_MarshalYAML_def KeySize_def)

text \<open>
  The theorem, with Base58 as the codec, at the private key that \<^verbatim>\<open>Generate\<close> packs from
  the key pair of RFC 7748.
\<close>

theorem PrivateKey_text_rejected_witness:
  "Generate (Inr (rfc_public, rfc_secret)) = (rfc_key, None)
   \<and> NewPrivateKey base58_Decode (PrivateKey_String base58_Encode rfc_key)
     = (zeros 64, Some InvalidKey)
   \<and> PrivateKey_UnmarshalYAML base58_Decode
       (Inr (fst (PrivateKey_MarshalYAML base58_Encode rfc_key))) rfc_key
     = (zeros 64, Some InvalidKey)"
proof -
  have g: "Generate (Inr (rfc_public, rfc_secret)) = (rfc_key, None)"
    by (simp add: Generate_pair rfc_lengths rfc_key_def)
  have "rfc_key \<noteq> []"
    by (simp add: rfc_key_def rfc_secret_def)
  then have "base58_Decode (base58_Encode rfc_key) = Inr rfc_key"
    by (rule base58_roundtrip)
  then show ?thesis
    using g PrivateKey_text_rejected [OF rfc_lengths(3), of base58_Decode base58_Encode]
    by simp
qed

section \<open>The public half of a private key\<close>

lemma base58_Decode_rfc_secret:
  "base58_Decode ''91e5r98drPSsxzLHWEa83gKyGgpSRcQezLWUNX656vaM'' = Inr rfc_secret"
  by code_simp

text \<open>
  C3. The claim is that every private key the library produces, by \<^verbatim>\<open>Generate\<close> or by
  parsing a text, carries at bytes 32 to 63 the public key derived from the secret at
  bytes 0 to 31. \<^verbatim>\<open>Generate\<close> packs the pair that \<^verbatim>\<open>box.GenerateKey\<close> returned. The
  code breaks the claim in \<^verbatim>\<open>NewPrivateKey\<close>: it accepts 32 decoded bytes only and
  copies them to bytes 0 to 31, so every key it returns without an error has these 32
  bytes as its secret and 32 zero bytes as its public half, whatever the secret is.
\<close>

theorem NewPrivateKey_public_half:
  assumes "NewPrivateKey decode str = (key, None)"
  shows "decode str = Inr (take 32 key) \<and> length key = 64
    \<and> drop 32 key = zeros 32 \<and> PublicKey key = zeros 32"
proof (cases "decode str")
  case (Inl err)
  with assms show ?thesis
    by (simp add: NewPrivateKey_def)
next
  case (Inr bs)
  with assms have len: "length bs = 32" and key: "key = bs @ zeros 32"
    by (auto simp: NewPrivateKey_def Let_def copy_into_def zeros_def KeySize_def split: if_splits)
  show ?thesis
    using len by (simp add: Inr key PublicKey_def copy_into_def zeros_def KeySize_def)
qed

text \<open>
  The theorem at the Base58 text of the secret key of RFC 7748: the key parsed from it
  has the secret half of the key that \<^verbatim>\<open>Generate\<close> packs from the RFC's key pair, whose
  public half is the RFC's public key, and an all-zero public half.
\<close>

theorem NewPrivateKey_public_half_witness:
  "NewPrivateKey base58_Decode ''91e5r98drPSsxzLHWEa83gKyGgpSRcQezLWUNX656vaM''
     = (rfc_secret @ zeros 32, None)
   \<and> PublicKey (rfc_secret @ zeros 32) = zeros 32
   \<and> Generate (Inr (rfc_public, rfc_secret)) = (rfc_secret @ rfc_public, None)
   \<and> PublicKey (rfc_secret @ rfc_public) = rfc_public
   \<and> rfc_public \<noteq> zeros 32"
proof -
  have parsed: "NewPrivateKey base58_Decode ''91e5r98drPSsxzLHWEa83gKyGgpSRcQezLWUNX656vaM''
      = (rfc_secret @ zeros 32, None)"
    using rfc_lengths(1)
    by (simp add: NewPrivateKey_def base58_Decode_rfc_secret copy_into_def zeros_def KeySize_def)
  have "PublicKey (rfc_secret @ zeros 32) = zeros 32"
    using NewPrivateKey_public_half [OF parsed] by blast
  moreover have "Generate (Inr (rfc_public, rfc_secret)) = (rfc_secret @ rfc_public, None)"
    by (simp add: Generate_pair rfc_lengths)
  moreover have "PublicKey (rfc_secret @ rfc_public) = rfc_public"
    using rfc_lengths by (simp add: PublicKey_tail)
  moreover have "rfc_public \<noteq> zeros 32"
    by code_simp
  ultimately show ?thesis
    using parsed by blast
qed

end
